theory Spec2Isabelle
  imports Complex_Main "HOL-Library.Sublist"
begin

section \<open>Python strings\<close>

text \<open>
  A Python \<open>str\<close> is modelled as a \<open>string\<close>; every \<open>char\<close> stands for one code
  point in the range 0..255, so that \<open>length\<close> counts what Python's \<open>len\<close> counts.
  The character predicates below are those of the Unicode database on that range.
\<close>

definition code_point :: "char \<Rightarrow> nat" where
  "code_point c = of_char c"

definition in_range :: "nat \<Rightarrow> nat \<Rightarrow> char \<Rightarrow> bool" where
  "in_range lo hi c = (lo \<le> code_point c \<and> code_point c \<le> hi)"

text \<open>\<open>A-Z\<close>, \<open>a-z\<close>, \<open>0-9\<close> as they occur in the character sets of the patterns.\<close>

definition ascii_upper :: "char \<Rightarrow> bool" where
  "ascii_upper c = in_range 65 90 c"

definition ascii_lower :: "char \<Rightarrow> bool" where
  "ascii_lower c = in_range 97 122 c"

definition ascii_digit :: "char \<Rightarrow> bool" where
  "ascii_digit c = in_range 48 57 c"

definition ascii_alpha :: "char \<Rightarrow> bool" where
  "ascii_alpha c = (ascii_upper c \<or> ascii_lower c)"

text \<open>\<open>str.isspace\<close> of one character, which is also \<open>\s\<close> of \<open>re\<close> and what
  \<open>str.strip()\<close> and \<open>str.split()\<close> remove.\<close>

definition isspace :: "char \<Rightarrow> bool" where
  "isspace c = (in_range 9 13 c \<or> in_range 28 32 c \<or> code_point c = 133 \<or> code_point c = 160)"

text \<open>\<open>str.isdigit\<close> of one character: the decimal digits and the superscripts
  \<open>U+00B2\<close>, \<open>U+00B3\<close>, \<open>U+00B9\<close>.\<close>

definition isdigit_char :: "char \<Rightarrow> bool" where
  "isdigit_char c = (ascii_digit c \<or> code_point c = 178 \<or> code_point c = 179 \<or> code_point c = 185)"

text \<open>\<open>\d\<close> of \<open>re\<close>: the decimal digits only.\<close>

definition re_digit :: "char \<Rightarrow> bool" where
  "re_digit c = ascii_digit c"

text \<open>Upper-case letters: \<open>A-Z\<close>, \<open>U+00C0..U+00D6\<close>, \<open>U+00D8..U+00DE\<close>.\<close>

definition isupper_char :: "char \<Rightarrow> bool" where
  "isupper_char c = (ascii_upper c \<or> in_range 192 214 c \<or> in_range 216 222 c)"

text \<open>\<open>str.lower\<close> of one character: the upper-case letters move up by 32.\<close>

definition lower_char :: "char \<Rightarrow> char" where
  "lower_char c = (if isupper_char c then char_of (code_point c + 32) else c)"

definition lower :: "string \<Rightarrow> string" where
  "lower s = map lower_char s"

text \<open>\<open>\w\<close> of \<open>re\<close> on \<open>str\<close>: alphanumeric characters and the underscore.\<close>

definition re_word :: "char \<Rightarrow> bool" where
  "re_word c = (ascii_alpha c \<or> ascii_digit c \<or> c = CHR ''_''
     \<or> code_point c = 170 \<or> code_point c = 178 \<or> code_point c = 179 \<or> code_point c = 181
     \<or> code_point c = 185 \<or> code_point c = 186 \<or> in_range 188 190 c
     \<or> in_range 192 214 c \<or> in_range 216 246 c \<or> in_range 248 255 c)"

text \<open>\<open>str.isdigit()\<close>: a non-empty string of digit characters.\<close>

definition isdigit :: "string \<Rightarrow> bool" where
  "isdigit s = (s \<noteq> [] \<and> list_all isdigit_char s)"

text \<open>\<open>str.strip()\<close> with no argument.\<close>

definition lstrip :: "string \<Rightarrow> string" where
  "lstrip s = dropWhile isspace s"

definition rstrip :: "string \<Rightarrow> string" where
  "rstrip s = rev (dropWhile isspace (rev s))"

definition strip :: "string \<Rightarrow> string" where
  "strip s = rstrip (lstrip s)"

text \<open>\<open>' '.join(parts)\<close>.\<close>

fun join_space :: "string list \<Rightarrow> string" where
  "join_space [] = []"
| "join_space [p] = p"
| "join_space (p # q # ps) = p @ '' '' @ join_space (q # ps)"

text \<open>\<open>s.split(sep)\<close> for a one-character separator: every field, the empty ones too.\<close>

fun split_on :: "char \<Rightarrow> string \<Rightarrow> string list" where
  "split_on sep [] = [[]]"
| "split_on sep (c # cs) =
     (if c = sep then [] # split_on sep cs
      else (case split_on sep cs of [] \<Rightarrow> [[c]] | f # fs \<Rightarrow> (c # f) # fs))"

text \<open>\<open>s.split()\<close>: the maximal runs of characters that are not whitespace;
  \<open>cur\<close> is the run being read.\<close>

fun split_ws :: "string \<Rightarrow> string \<Rightarrow> string list" where
  "split_ws cur [] = (if cur = [] then [] else [cur])"
| "split_ws cur (c # cs) =
     (if isspace c then (if cur = [] then split_ws [] cs else cur # split_ws [] cs)
      else split_ws (cur @ [c]) cs)"

text \<open>\<open>re.split(r'\s{2,}', s)\<close>: the separators are the maximal whitespace runs of
  length two or more; a single whitespace character stays in its field.\<close>

function re_split_spaces :: "string \<Rightarrow> string \<Rightarrow> string list" where
  "re_split_spaces cur [] = [cur]"
| "re_split_spaces cur [c] = [cur @ [c]]"
| "re_split_spaces cur (c # d # cs) =
     (if isspace c \<and> isspace d then cur # re_split_spaces [] (dropWhile isspace cs)
      else re_split_spaces (cur @ [c]) (d # cs))"
  by pat_completeness auto
termination
  by (relation "measure (\<lambda>(cur, s). length s)")
     (auto simp: le_imp_less_Suc length_dropWhile_le less_SucI)

text \<open>\<open>s.replace(old, new)\<close>: the occurrences of \<open>old\<close> are found from the left and do
  not overlap; \<open>skip\<close> counts the characters of an occurrence still to be passed.\<close>

fun replace_from :: "string \<Rightarrow> string \<Rightarrow> nat \<Rightarrow> string \<Rightarrow> string" where
  "replace_from old new skip [] = []"
| "replace_from old new skip (c # cs) =
     (if 0 < skip then replace_from old new (skip - 1) cs
      else if prefix old (c # cs) then new @ replace_from old new (length old - 1) cs
      else c # replace_from old new 0 cs)"

definition replace :: "string \<Rightarrow> string \<Rightarrow> string \<Rightarrow> string" where
  "replace old new s =
     (if old = [] then new @ concat (map (\<lambda>c. c # new) s) else replace_from old new 0 s)"

text \<open>\<open>str(n)\<close> for a natural number.\<close>

function str_nat :: "nat \<Rightarrow> string" where
  "str_nat n = (if n < 10 then [char_of (48 + n)] else str_nat (n div 10) @ [char_of (48 + n mod 10)])"
  by pat_completeness auto
termination
  by (relation "measure id") auto

declare str_nat.simps [simp del]

text \<open>\<open>sub in s\<close> for strings is \<^const>\<open>sublist\<close>; \<open>s.startswith(p)\<close> is \<^const>\<open>prefix\<close>.\<close>

section \<open>The email pattern\<close>

text \<open>
  \<^verbatim>\<open>email_pattern = r'\b[A-Za-z0-9._%+-]+@[A-Za-z0-9.-]+\.[A-Z|a-z]{2,}\b'\<close>,
  searched with \<open>re.IGNORECASE\<close>. The three character sets (the last one holds the
  bar) are closed under case already; on the code points 0..255 ignoring case adds nothing.
\<close>

definition local_char :: "char \<Rightarrow> bool" where
  "local_char c = (ascii_alpha c \<or> ascii_digit c \<or> c \<in> set ''._%+-'')"

definition domain_char :: "char \<Rightarrow> bool" where
  "domain_char c = (ascii_alpha c \<or> ascii_digit c \<or> c \<in> set ''.-'')"

definition tld_char :: "char \<Rightarrow> bool" where
  "tld_char c = (ascii_alpha c \<or> c = CHR ''|'')"

definition nth_opt :: "string \<Rightarrow> nat \<Rightarrow> char option" where
  "nth_opt s i = (if i < length s then Some (s ! i) else None)"

text \<open>\<open>\b\<close> between two neighbours, either of which may be the end of the string.\<close>

definition word_boundary :: "char option \<Rightarrow> char option \<Rightarrow> bool" where
  "word_boundary a b =
     ((case a of None \<Rightarrow> False | Some c \<Rightarrow> re_word c) \<noteq> (case b of None \<Rightarrow> False | Some c \<Rightarrow> re_word c))"

text \<open>
  The matcher backtracks as \<open>re\<close> does: each greedy repetition first takes the longest
  run and gives characters back one at a time. \<open>tld_try t n\<close> tries \<open>n\<close>, \<open>n - 1\<close>, ...
  characters of \<open>t\<close> for \<open>[A-Z|a-z]{2,}\<close> followed by \<open>\b\<close> and returns the length taken.
\<close>

fun tld_try :: "string \<Rightarrow> nat \<Rightarrow> nat option" where
  "tld_try t 0 = None"
| "tld_try t (Suc n) =
     (if 2 \<le> Suc n \<and> word_boundary (nth_opt t n) (nth_opt t (Suc n)) then Some (Suc n)
      else tld_try t n)"

text \<open>\<open>domain_try d k\<close>: \<open>[A-Za-z0-9.-]+\<close> takes \<open>k\<close>, \<open>k - 1\<close>, ... characters of \<open>d\<close>,
  then \<open>\.\<close> and the rest of the pattern; the result is the length matched in \<open>d\<close>.\<close>

fun domain_try :: "string \<Rightarrow> nat \<Rightarrow> nat option" where
  "domain_try d 0 = None"
| "domain_try d (Suc k) =
     (if nth_opt d (Suc k) = Some CHR ''.''
      then (case tld_try (drop (Suc (Suc k)) d) (length (takeWhile tld_char (drop (Suc (Suc k)) d))) of
              Some n \<Rightarrow> Some (Suc (Suc k) + n)
            | None \<Rightarrow> domain_try d k)
      else domain_try d k)"

text \<open>\<open>local_try s m\<close>: \<open>[A-Za-z0-9._%+-]+\<close> takes \<open>m\<close>, \<open>m - 1\<close>, ... characters of \<open>s\<close>,
  then \<open>@\<close> and the rest of the pattern; the result is the length of the whole match.\<close>

fun local_try :: "string \<Rightarrow> nat \<Rightarrow> nat option" where
  "local_try s 0 = None"
| "local_try s (Suc m) =
     (if nth_opt s (Suc m) = Some CHR ''@''
      then (case domain_try (drop (Suc (Suc m)) s) (length (takeWhile domain_char (drop (Suc (Suc m)) s))) of
              Some n \<Rightarrow> Some (Suc (Suc m) + n)
            | None \<Rightarrow> local_try s m)
      else local_try s m)"

text \<open>A match that starts at the head of \<open>s\<close>, \<open>prev\<close> being the character before it.\<close>

definition match_here :: "char option \<Rightarrow> string \<Rightarrow> nat option" where
  "match_here prev s =
     (if word_boundary prev (nth_opt s 0) then local_try s (length (takeWhile local_char s))
      else None)"

text \<open>The leftmost match: \<open>emails[0]\<close> of \<open>emails = re.findall(email_pattern, line,
  re.IGNORECASE)\<close>, and \<open>None\<close> when \<open>emails\<close> is empty.\<close>

fun search_from :: "char option \<Rightarrow> string \<Rightarrow> string option" where
  "search_from prev [] = None"
| "search_from prev (c # cs) =
     (case match_here prev (c # cs) of
        Some n \<Rightarrow> Some (take n (c # cs))
      | None \<Rightarrow> search_from (Some c) cs)"

definition first_email :: "string \<Rightarrow> string option" where
  "first_email line = search_from None line"

section \<open>Contact records\<close>

text \<open>The dictionary built at the end of \<open>parse_hr_data_improved\<close>: always these four keys.\<close>

record contact =
  company :: string
  hr_name :: string
  email :: string
  position :: string

section \<open>The extractor: \<open>parse_hr_data_improved\<close>\<close>

text \<open>An entry of \<open>skipped_lines\<close>.\<close>

record skipped =
  line_num :: nat
  content :: string
  reason :: string

text \<open>The header and empty lines are filtered out, the others are stripped.\<close>

definition data_lines :: "string \<Rightarrow> string list" where
  "data_lines text =
     filter (\<lambda>line. line \<noteq> [] \<and> \<not> prefix ''SNo'' line \<and> \<not> prefix ''name'' (lower line))
       (map strip (split_on CHR 0x0A text))"

definition email_marker :: string where
  "email_marker = ''|||EMAIL|||''"

text \<open>
  The fallback tokenizer, the loop over \<open>words\<close>; \<open>parts\<close> and \<open>current_part\<close> are
  its two variables. The last two branches of the source both append the word.
\<close>

fun group_words :: "string list \<Rightarrow> string list \<Rightarrow> string list \<Rightarrow> string list" where
  "group_words parts current_part [] =
     (if current_part \<noteq> [] then parts @ [join_space current_part] else parts)"
| "group_words parts current_part (word # words) =
     (if word = email_marker
      then (if current_part \<noteq> []
            then group_words (parts @ [join_space current_part] @ [email_marker]) [] words
            else group_words (parts @ [email_marker]) current_part words)
      else if isdigit word \<and> length current_part = 0
      then group_words (parts @ [word]) current_part words
      else if 1 < length word \<and> isupper_char (word ! 0) \<and> length current_part < 3
      then group_words parts (current_part @ [word]) words
      else group_words parts (current_part @ [word]) words)"

text \<open>The two splitting approaches, chosen by \<open>'  ' in line_parts\<close>.\<close>

definition split_parts :: "string \<Rightarrow> string list" where
  "split_parts line_parts =
     (if sublist ''  '' line_parts
      then map strip (filter (\<lambda>p. strip p \<noteq> []) (re_split_spaces [] line_parts))
      else group_words [] [] (split_ws [] line_parts))"

text \<open>The index of the first part that is the marker, or \<open>-1\<close>.\<close>

fun find_email_index :: "nat \<Rightarrow> string list \<Rightarrow> int" where
  "find_email_index i [] = - 1"
| "find_email_index i (part # parts) =
     (if part = email_marker then int i else find_email_index (Suc i) parts)"

definition title_words :: "string list" where
  "title_words = [''manager'', ''director'', ''head'', ''lead'', ''hr'', ''recruiter'']"

text \<open>
  From the parts to \<open>(sno, name, title, company)\<close>: the serial number is taken off the
  front, then the parts before and after the marker are assigned.
\<close>

definition extract_fields :: "string list \<Rightarrow> string \<times> string \<times> string \<times> string" where
  "extract_fields parts0 =
     (let email_index0 = find_email_index 0 parts0;
          serial = (parts0 \<noteq> [] \<and> isdigit (hd parts0));
          sno = (if serial then hd parts0 else []);
          parts = (if serial then tl parts0 else parts0);
          email_index = (if serial \<and> 0 \<le> email_index0 then email_index0 - 1 else email_index0)
      in if 0 \<le> email_index
         then (let before_email = take (nat email_index) parts;
                   after_email = (if email_index < int (length parts) - 1
                                  then drop (nat (email_index + 1)) parts else []);
                   (name, title) =
                     (if before_email \<noteq> []
                      then (if length before_email = 1
                            then (let potential_name = before_email ! 0
                                  in if list_ex (\<lambda>title_word. sublist title_word (lower potential_name)) title_words
                                     then (''HR Manager'', potential_name)
                                     else (potential_name, ''HR Representative''))
                            else if 2 \<le> length before_email
                            then (before_email ! 0, join_space (tl before_email))
                            else (''HR Manager'', ''HR Representative''))
                      else (''HR Manager'', ''HR Representative''));
                   company = (if after_email \<noteq> [] then join_space after_email else ''Unknown Company'')
               in (sno, name, title, company))
         else (sno, ''HR Manager'', ''HR Representative'', ''Unknown Company''))"

text \<open>\<open>re.sub(r'^\d+\s*', '', s)\<close>: a leading run of digits goes, with the whitespace
  that follows it; a string that does not start with a digit is unchanged.\<close>

definition trim_leading_digits :: "string \<Rightarrow> string" where
  "trim_leading_digits s =
     (if takeWhile re_digit s = [] then s else dropWhile isspace (dropWhile re_digit s))"

definition clean :: "string \<Rightarrow> string" where
  "clean s = strip (trim_leading_digits s)"

text \<open>The final check, \<open>'@' not in email or '.' not in email.split('@')[1]\<close>.\<close>

definition email_invalid :: "string \<Rightarrow> bool" where
  "email_invalid e =
     (if CHR ''@'' \<notin> set e then True else CHR ''.'' \<notin> set (split_on CHR ''@'' e ! 1))"

text \<open>The body of the loop over \<open>enumerate(data_lines, 1)\<close> for one line.\<close>

definition parse_line :: "nat \<Rightarrow> string \<Rightarrow> skipped + contact" where
  "parse_line n line =
     (case first_email line of
        None \<Rightarrow> Inl \<lparr>line_num = n, content = line, reason = ''No email found''\<rparr>
      | Some e \<Rightarrow>
          (let line_parts = strip (replace e email_marker line);
               (sno, name0, title0, company0) = extract_fields (split_parts line_parts);
               name = clean name0;
               company = clean company0;
               title = clean title0
           in if email_invalid e
              then Inl \<lparr>line_num = n, content = line, reason = ''Invalid email: '' @ e\<rparr>
              else Inr \<lparr>company = (if company \<noteq> [] \<and> company \<noteq> ''Unknown Company'' then company
                                    else ''Company_'' @ (if sno \<noteq> [] then sno else str_nat n)),
                        hr_name = (if name \<noteq> [] then name else ''HR Manager''),
                        email = e,
                        position = (if title \<noteq> [] then title else ''HR Representative'')\<rparr>))"

fun parse_loop ::
  "contact list \<Rightarrow> skipped list \<Rightarrow> nat \<Rightarrow> string list \<Rightarrow> contact list \<times> skipped list" where
  "parse_loop contacts skipped_lines n [] = (contacts, skipped_lines)"
| "parse_loop contacts skipped_lines n (line # lines) =
     (case parse_line n line of
        Inl sk \<Rightarrow> parse_loop contacts (skipped_lines @ [sk]) (Suc n) lines
      | Inr c \<Rightarrow> parse_loop (contacts @ [c]) skipped_lines (Suc n) lines)"

definition parse_hr_data_improved :: "string \<Rightarrow> contact list \<times> skipped list" where
  "parse_hr_data_improved text = parse_loop [] [] 1 (data_lines text)"

section \<open>The deduplication pass\<close>

text \<open>
  The loop of \<open>save_contacts_to_csv\<close>: \<open>seen_emails\<close>, \<open>unique_contacts\<close> and
  \<open>duplicates\<close> are threaded through the iteration over \<open>contacts\<close>.
\<close>

fun dedup_loop ::
  "string set \<Rightarrow> contact list \<Rightarrow> contact list \<Rightarrow> contact list \<Rightarrow> contact list \<times> contact list" where
  "dedup_loop seen_emails unique_contacts duplicates [] = (unique_contacts, duplicates)"
| "dedup_loop seen_emails unique_contacts duplicates (c # cs) =
     (let email_lower = lower (email c) in
      if email_lower \<notin> seen_emails
      then dedup_loop (insert email_lower seen_emails) (unique_contacts @ [c]) duplicates cs
      else dedup_loop seen_emails unique_contacts (duplicates @ [c]) cs)"

definition dedup_pass :: "contact list \<Rightarrow> contact list \<times> contact list" where
  "dedup_pass contacts = dedup_loop {} [] [] contacts"

text \<open>
  \<open>save_contacts_to_csv\<close>: nothing is written for an empty list (the function returns
  \<open>False\<close>); otherwise the unique contacts are the rows written, and the duplicates are
  what the report counts.
\<close>

definition save_contacts_to_csv :: "contact list \<Rightarrow> bool \<times> contact list option \<times> nat" where
  "save_contacts_to_csv contacts =
     (if contacts = [] then (False, None, 0)
      else (let (unique_contacts, duplicates) = dedup_pass contacts
            in (True, Some unique_contacts, length duplicates)))"

section \<open>Predicates of the verification\<close>

text \<open>The contacts the loop keeps, as a function of the set seen so far.\<close>

fun kept :: "string set \<Rightarrow> contact list \<Rightarrow> contact list" where
  "kept seen [] = []"
| "kept seen (c # cs) =
     (if lower (email c) \<in> seen then kept seen cs
      else c # kept (insert (lower (email c)) seen) cs)"

text \<open>A blank string: empty, or whitespace only (\<open>not s.strip()\<close>).\<close>

definition is_blank :: "string \<Rightarrow> bool" where
  "is_blank s = list_all isspace s"

text \<open>One \<open>@\<close>, and a dot after it.\<close>

definition email_shape :: "string \<Rightarrow> bool" where
  "email_shape e =
     (\<exists>l d. e = l @ CHR ''@'' # d \<and> CHR ''@'' \<notin> set l \<and> CHR ''@'' \<notin> set d \<and> CHR ''.'' \<in> set d)"

section \<open>The campaign sender: contacts and the sent log\<close>

text \<open>
  A row of the contact table, as \<open>contact.to_dict()\<close> hands it to \<open>send_email\<close>:
  \<open>load_hr_contacts\<close> requires the column \<open>email\<close>, the other columns may be absent.
\<close>

record row =
  row_email :: string
  row_company :: "string option"
  row_hr_name :: "string option"

text \<open>
  The file \<open>sent_emails_log\<close>: absent, not loadable as JSON, or a list of objects;
  an object is an association list from keys to strings.
\<close>

type_synonym log_entry = "(string \<times> string) list"

datatype log_file = NoFile | Unreadable | Log "log_entry list"

text \<open>\<open>{entry['email'] for entry in sent_log}\<close>; \<open>None\<close> stands for the
  \<open>KeyError\<close> of an entry without the key.\<close>

fun sent_emails_of :: "log_entry list \<Rightarrow> string set option" where
  "sent_emails_of [] = Some {}"
| "sent_emails_of (entry # sent_log) =
     (case map_of entry ''email'' of
        None \<Rightarrow> None
      | Some e \<Rightarrow> map_option (insert e) (sent_emails_of sent_log))"

text \<open>
  \<open>get_unsent_contacts\<close>, the same in both senders: without a log file, or on any
  exception, all contacts are returned; otherwise the rows whose \<open>email\<close> is not
  \<open>isin(sent_emails)\<close>.
\<close>

definition get_unsent_contacts :: "log_file \<Rightarrow> row list \<Rightarrow> row list" where
  "get_unsent_contacts file contacts_df =
     (case file of
        NoFile \<Rightarrow> contacts_df
      | Unreadable \<Rightarrow> contacts_df
      | Log sent_log \<Rightarrow>
          (case sent_emails_of sent_log of
             None \<Rightarrow> contacts_df
           | Some sent_emails \<Rightarrow> filter (\<lambda>c. row_email c \<notin> sent_emails) contacts_df))"

text \<open>
  The filter as the specification words it: the contacts whose email is not among the
  logged ones, compared without regard to case.
\<close>

definition filter_unsent_spec :: "row list \<Rightarrow> string list \<Rightarrow> row list" where
  "filter_unsent_spec C S = filter (\<lambda>c. lower (row_email c) \<notin> set (map lower S)) C"

section \<open>Templates\<close>

text \<open>The exceptions that the modelled code raises and catches.\<close>

datatype py_error =
    KeyError string
  | IndexError
  | ValueError
  | FileNotFoundError
  | Unmodelled

text \<open>
  \<open>template.format(**kwargs)\<close>, with keyword arguments only. Literal text is copied,
  \<open>{{\<close> and \<open>}}\<close> stand for one brace, and a replacement field runs to the next
  closing brace. The argument name is the text of the field before any \<open>.\<close>, \<open>!\<close> or
  \<open>:\<close>; an empty or numeric name asks for a positional argument and raises
  \<open>IndexError\<close>, a name that is not a keyword raises \<open>KeyError\<close>. A field with a
  conversion, an attribute or index, a format specification or a nested field, whose
  argument is found, is outside what is modelled: the result is \<open>Unmodelled\<close>.
\<close>

definition format_field :: "(string \<times> string) list \<Rightarrow> string \<Rightarrow> py_error + string" where
  "format_field kwargs field =
     (if CHR ''{'' \<in> set field \<or> CHR ''['' \<in> set field then Inl Unmodelled
      else (let field_name = takeWhile (\<lambda>c. c \<noteq> CHR '':'' \<and> c \<noteq> CHR ''!'') field;
                rest = dropWhile (\<lambda>c. c \<noteq> CHR '':'' \<and> c \<noteq> CHR ''!'') field;
                arg_name = takeWhile (\<lambda>c. c \<noteq> CHR ''.'') field_name
            in if rest \<noteq> [] \<and> hd rest = CHR ''!'' then Inl Unmodelled
               else if arg_name = [] \<or> list_all ascii_digit arg_name then Inl IndexError
               else (case map_of kwargs arg_name of
                       None \<Rightarrow> Inl (KeyError arg_name)
                     | Some v \<Rightarrow> if arg_name \<noteq> field_name \<or> rest \<noteq> [] then Inl Unmodelled else Inr v)))"

definition prepend :: "string \<Rightarrow> py_error + string \<Rightarrow> py_error + string" where
  "prepend v r = (case r of Inl e \<Rightarrow> Inl e | Inr s \<Rightarrow> Inr (v @ s))"

function str_format :: "(string \<times> string) list \<Rightarrow> string \<Rightarrow> py_error + string" where
  "str_format kwargs [] = Inr []"
| "str_format kwargs (c # cs) =
     (if c = CHR ''{''
      then (if cs \<noteq> [] \<and> hd cs = CHR ''{'' then prepend ''{'' (str_format kwargs (tl cs))
            else if CHR ''}'' \<notin> set cs then Inl ValueError
            else (case format_field kwargs (takeWhile (\<lambda>x. x \<noteq> CHR ''}'') cs) of
                    Inl e \<Rightarrow> Inl e
                  | Inr v \<Rightarrow> prepend v (str_format kwargs (tl (dropWhile (\<lambda>x. x \<noteq> CHR ''}'') cs)))))
      else if c = CHR ''}''
      then (if cs \<noteq> [] \<and> hd cs = CHR ''}'' then prepend ''}'' (str_format kwargs (tl cs))
            else Inl ValueError)
      else prepend [c] (str_format kwargs cs))"
  by pat_completeness auto
termination
  by (relation "measure (\<lambda>(kwargs, s). length s)")
     (auto simp: less_Suc_eq_le intro!: le_trans[OF diff_le_self length_dropWhile_le])

text \<open>The part of \<open>config.json\<close> that the sender reads after start-up.\<close>

record config =
  cfg_email :: string
  cfg_candidate_name :: "string option"
  cfg_phone_number :: "string option"
  cfg_min_delay :: "int option"
  cfg_max_delay :: "int option"

text \<open>\<open>d.get(key, default)\<close>.\<close>

definition get_default :: "'a option \<Rightarrow> 'a \<Rightarrow> 'a" where
  "get_default v d = (case v of None \<Rightarrow> d | Some x \<Rightarrow> x)"

text \<open>
  \<open>personalize_email\<close>, the same in both senders; it returns the subject and the
  content. The dash of the subject is \<open>U+2013\<close>, written here in its three UTF-8 bytes.
\<close>

definition personalize_email :: "config \<Rightarrow> string \<Rightarrow> row \<Rightarrow> py_error + (string \<times> string)" where
  "personalize_email cfg template contact =
     (let company_name = get_default (row_company contact) ''Your Company'';
          hr_name = get_default (row_hr_name contact) ''Hiring Manager'';
          candidate_name = get_default (cfg_candidate_name cfg) ''Abhinay Kumar'';
          phone_number = get_default (cfg_phone_number cfg) ''+91-XXXXXXXXXX'';
          email_address = cfg_email cfg
      in case str_format [(''company_name'', company_name), (''hr_name'', hr_name),
                          (''candidate_name'', candidate_name), (''phone_number'', phone_number),
                          (''email_address'', email_address)] template of
           Inl e \<Rightarrow> Inl e
         | Inr personalized_content \<Rightarrow>
             Inr (''Application for Developer Role '' @ [CHR 0xE2, CHR 0x80, CHR 0x93] @ '' '' @ candidate_name,
                  personalized_content))"

text \<open>The template that \<open>load_email_template\<close> of \<open>email_automation.py\<close> writes when
  the template file is missing.\<close>

definition default_template :: string where
  \<open>default_template =
     ''\<newline>'' @
     ''<!DOCTYPE html>\<newline>'' @
     ''<html>\<newline>'' @
     ''<head>\<newline>'' @
     ''    <meta charset="utf-8">\<newline>'' @
     ''    <style>\<newline>'' @
     ''        body { font-family: Arial, sans-serif; line-height: 1.6; color: #333; }\<newline>'' @
     ''        .header { color: #2c3e50; }\<newline>'' @
     ''        .content { margin: 20px 0; }\<newline>'' @
     ''        .signature { margin-top: 30px; border-top: 1px solid #eee; padding-top: 20px; }\<newline>'' @
     ''    </style>\<newline>'' @
     ''</head>\<newline>'' @
     ''<body>\<newline>'' @
     ''    <div class="header">\<newline>'' @
     ''        <h2>Subject: Application for Software Developer Position - {candidate_name}</h2>\<newline>'' @
     ''    </div>\<newline>'' @
     ''    \<newline>'' @
     ''    <div class="content">\<newline>'' @
     ''        <p>Dear {hr_name},</p>\<newline>'' @
     ''        \<newline>'' @
     ''        <p>I hope this email finds you well. I am writing to express my strong interest in software development opportunities at {company_name}.</p>\<newline>'' @
     ''        \<newline>'' @
     ''        <p>As a passionate software developer with expertise in Python, SQL, AWS, React, JavaScript, HTML, CSS, NumPy, and Pandas, I am excited about the possibility of contributing to your team'' @ [CHR 0x27] @ ''s success. I have attached my resume for your review.</p>\<newline>'' @
     ''        \<newline>'' @
     ''        <p>Key highlights of my background:</p>\<newline>'' @
     ''        <ul>\<newline>'' @
     ''            <li>Strong programming skills in Python and JavaScript</li>\<newline>'' @
     ''            <li>Experience with modern web technologies (React, HTML, CSS)</li>\<newline>'' @
     ''            <li>Proficiency in data analysis tools (Pandas, NumPy)</li>\<newline>'' @
     ''            <li>Cloud computing experience with AWS</li>\<newline>'' @
     ''            <li>Database management skills with SQL</li>\<newline>'' @
     ''        </ul>\<newline>'' @
     ''        \<newline>'' @
     ''        <p>I would welcome the opportunity to discuss how my skills and enthusiasm can contribute to {company_name}'' @ [CHR 0x27] @ ''s continued growth and success.</p>\<newline>'' @
     ''        \<newline>'' @
     ''        <p>Thank you for your time and consideration. I look forward to hearing from you.</p>\<newline>'' @
     ''    </div>\<newline>'' @
     ''    \<newline>'' @
     ''    <div class="signature">\<newline>'' @
     ''        <p>Best regards,<br>\<newline>'' @
     ''        {candidate_name}<br>\<newline>'' @
     ''        {phone_number}<br>\<newline>'' @
     ''        {email_address}</p>\<newline>'' @
     ''    </div>\<newline>'' @
     ''</body>\<newline>'' @
     ''</html>\<newline>'' @
     ''            ''\<close>


text \<open>\<open>load_email_template\<close> of \<open>email_automation_24x7.py\<close>: a missing file is an error.\<close>

definition load_email_template_24x7 :: "string option \<Rightarrow> py_error + string" where
  "load_email_template_24x7 file =
     (case file of Some template \<Rightarrow> Inr template | None \<Rightarrow> Inl FileNotFoundError)"



section \<open>The sender of \<open>email_automation.py\<close>\<close>

text \<open>
  The fields of \<open>EmailAutomationSystem\<close> that change while it runs, and the sent-log
  file. Dates are day numbers; \<open>smtp_server\<close> tells whether the attribute holds a
  connection object.
\<close>

record sender =
  sent_today :: int
  daily_limit :: int
  last_sent_date :: int
  smtp_server :: bool
  connection_attempts :: nat
  sent_emails_log :: log_file

text \<open>The outcome of opening a connection: the constructor raises, or \<open>starttls\<close> or
  \<open>login\<close> raises after the attribute is set, or all three succeed.\<close>

datatype attempt = Refused | HandshakeFailed | Established

text \<open>What the sender does to the outside, in order.\<close>

datatype event =
    Noop bool
  | Connect attempt
  | Quit
  | Sendmail string bool
  | Sleep int

text \<open>A wall-clock reading: the date and the microseconds since midnight.\<close>

record clock =
  date :: int
  micros :: nat

text \<open>
  What the outside answers during one call of \<open>send_email\<close>: the date read for the
  new-day check, the successive answers of \<open>is_business_hours()\<close>, of \<open>noop()\<close> and of
  opening a connection, whether the resume can be attached, whether \<open>sendmail\<close>
  succeeds, whether the log can be written, the time stamp of the log entry, the random
  draw, and the clock read for the delay of the 24x7 sender.
\<close>

record send_env =
  today :: int
  business :: "bool list"
  noops :: "bool list"
  connects :: "attempt list"
  attach_ok :: bool
  sendmail_ok :: bool
  log_ok :: bool
  timestamp :: string
  rand :: nat
  now :: clock

text \<open>
  \<open>wait_for_business_hours\<close>: the loop sleeps an hour after every negative answer. The
  result is the number of sleeps, or \<open>None\<close> when the answers run out before a positive
  one: the loop has not returned.
\<close>

fun wait_for_business_hours :: "bool list \<Rightarrow> nat option" where
  "wait_for_business_hours [] = None"
| "wait_for_business_hours (b # bs) =
     (if b then Some 0 else map_option Suc (wait_for_business_hours bs))"

text \<open>
  \<open>connect_smtp\<close>: an existing connection is tested with \<open>noop()\<close>; otherwise a new one
  is opened. A failure counts an attempt and, below \<open>max_connection_attempts = 3\<close>,
  sleeps \<open>2 ** attempts * 60\<close> seconds and tries again. Answers that have run out count
  as failures.
\<close>

definition max_connection_attempts :: nat where
  "max_connection_attempts = 3"

function connect_smtp :: "bool list \<Rightarrow> attempt list \<Rightarrow> sender \<Rightarrow> bool \<times> sender \<times> event list" where
  "connect_smtp ns cs s =
     (if smtp_server s \<and> ns \<noteq> [] \<and> hd ns then (True, s, [Noop True])
      else (let ev0 = (if smtp_server s then [Noop False] else []);
                a = (if cs = [] then Refused else hd cs)
            in if a = Established
               then (True, s\<lparr>smtp_server := True, connection_attempts := 0\<rparr>, ev0 @ [Connect a])
               else (let s1 = s\<lparr>smtp_server := (a = HandshakeFailed),
                                connection_attempts := connection_attempts s + 1\<rparr>
                     in if connection_attempts s1 < max_connection_attempts
                        then (case connect_smtp (tl ns) (tl cs) s1 of
                                (ok, s2, ev) \<Rightarrow>
                                  (ok, s2, ev0 @ [Connect a, Sleep (2 ^ connection_attempts s1 * 60)] @ ev))
                        else (False, s1, ev0 @ [Connect a]))))"
  by pat_completeness auto
termination
  by (relation "measure (\<lambda>(ns, cs, s). max_connection_attempts - connection_attempts s)") auto

declare connect_smtp.simps [simp del]

text \<open>\<open>log_sent_email\<close>: the log that can be loaded, or the empty one, with the new
  entry appended.\<close>

definition log_sent_email :: "string \<Rightarrow> row \<Rightarrow> string \<Rightarrow> log_file \<Rightarrow> log_file" where
  "log_sent_email ts contact subject file =
     Log ((case file of Log entries \<Rightarrow> entries | _ \<Rightarrow> []) @
          [[(''timestamp'', ts), (''email'', row_email contact),
            (''company'', get_default (row_company contact) ''Unknown''),
            (''hr_name'', get_default (row_hr_name contact) ''Unknown''),
            (''subject'', subject)]])"

text \<open>\<open>random.randint(a, b)\<close>: an empty range raises; otherwise the draw selects a
  value of the range.\<close>

definition randint :: "int \<Rightarrow> int \<Rightarrow> nat \<Rightarrow> py_error + int" where
  "randint a b r = (if b < a then Inl ValueError else Inr (a + int r mod (b - a + 1)))"

text \<open>
  \<open>send_email\<close>. Every exception inside is caught and makes the result \<open>False\<close>; what
  was changed before it stays changed. \<open>None\<close>: the wait for business hours has not
  returned.
\<close>

definition send_email ::
  "config \<Rightarrow> send_env \<Rightarrow> row \<Rightarrow> string \<Rightarrow> sender \<Rightarrow> (bool \<times> sender \<times> event list) option" where
  "send_email cfg env contact template s =
     (if daily_limit s \<le> sent_today s then Some (False, s, [])
      else (let s1 = (if last_sent_date s < today env
                      then s\<lparr>sent_today := 0, last_sent_date := today env\<rparr> else s)
            in case wait_for_business_hours (business env) of
                 None \<Rightarrow> None
               | Some k \<Rightarrow>
                   (case connect_smtp (noops env) (connects env) s1 of
                      (connection_ok, s2, ev) \<Rightarrow>
                        (let ev1 = replicate k (Sleep 3600) @ ev
                         in if \<not> connection_ok then Some (False, s2, ev1)
                            else (case personalize_email cfg template contact of
                                    Inl err \<Rightarrow> Some (False, s2, ev1)
                                  | Inr (subject, personalized_content) \<Rightarrow>
                                      if \<not> attach_ok env then Some (False, s2, ev1)
                                      else if \<not> sendmail_ok env
                                      then Some (False, s2, ev1 @ [Sendmail (row_email contact) False])
                                      else (let s3 = s2\<lparr>sent_today := sent_today s2 + 1\<rparr>;
                                                ev2 = ev1 @ [Sendmail (row_email contact) True]
                                            in if \<not> log_ok env then Some (False, s3, ev2)
                                               else (let s4 = s3\<lparr>sent_emails_log :=
                                                            log_sent_email (timestamp env) contact subject
                                                              (sent_emails_log s3)\<rparr>
                                                     in case randint (get_default (cfg_min_delay cfg) 30)
                                                               (get_default (cfg_max_delay cfg) 120) (rand env) of
                                                          Inl err \<Rightarrow> Some (False, s4, ev2)
                                                        | Inr delay \<Rightarrow> Some (True, s4, ev2 @ [Sleep delay]))))))))"

text \<open>\<open>DataFrame.head(n)\<close>: the first \<open>n\<close> rows, or all but the last \<open>-n\<close>.\<close>

definition head :: "int \<Rightarrow> 'a list \<Rightarrow> 'a list" where
  "head n xs = (if 0 \<le> n then take (nat n) xs else take (length xs - nat (- n)) xs)"



text \<open>The successful transport sends among the events.\<close>

fun is_sent :: "event \<Rightarrow> bool" where
  "is_sent (Sendmail to ok) = ok"
| "is_sent _ = False"

definition successful_sends :: "event list \<Rightarrow> nat" where
  "successful_sends ev = length (filter is_sent ev)"

section \<open>The sender of \<open>email_automation_24x7.py\<close>\<close>

text \<open>
  \<open>connect_smtp\<close> of the 24x7 sender: an existing connection is always closed and a
  new one opened; the wait between attempts is capped at 300 seconds.
\<close>

function connect_smtp_24x7 :: "attempt list \<Rightarrow> sender \<Rightarrow> bool \<times> sender \<times> event list" where
  "connect_smtp_24x7 cs s =
     (let ev0 = (if smtp_server s then [Quit] else []);
          a = (if cs = [] then Refused else hd cs)
      in if a = Established
         then (True, s\<lparr>smtp_server := True, connection_attempts := 0\<rparr>, ev0 @ [Connect a])
         else (let s1 = s\<lparr>smtp_server := (a = HandshakeFailed),
                          connection_attempts := connection_attempts s + 1\<rparr>
               in if connection_attempts s1 < max_connection_attempts
                  then (case connect_smtp_24x7 (tl cs) s1 of
                          (ok, s2, ev) \<Rightarrow>
                            (ok, s2, ev0 @ [Connect a, Sleep (min 300 (2 ^ connection_attempts s1 * 60))] @ ev))
                  else (False, s1, ev0 @ [Connect a])))"
  by pat_completeness auto
termination
  by (relation "measure (\<lambda>(cs, s). max_connection_attempts - connection_attempts s)") auto

declare connect_smtp_24x7.simps [simp del]

text \<open>
  The arithmetic of \<open>calculate_smart_delay\<close> is on floats; it is read here as exact
  arithmetic on rationals. \<open>int(x)\<close> truncates towards zero.
\<close>

definition py_int :: "rat \<Rightarrow> int" where
  "py_int q = (if 0 \<le> q then \<lfloor>q\<rfloor> else \<lceil>q\<rceil>)"

text \<open>\<open>(next_day - now).total_seconds()\<close>, with \<open>next_day\<close> the coming midnight.\<close>

definition seconds_until_next_day :: "clock \<Rightarrow> rat" where
  "seconds_until_next_day t = of_int (86400000000 - int (micros t)) / 1000000"

text \<open>\<open>(end_of_day - now).total_seconds()\<close>, with \<open>end_of_day\<close> at 23:59:59.999999.\<close>

definition seconds_until_end_of_day :: "clock \<Rightarrow> rat" where
  "seconds_until_end_of_day t = of_int (86399999999 - int (micros t)) / 1000000"

text \<open>\<open>calculate_smart_delay\<close>: the result is the delay and the sender, whose counter
  the function resets on a new day.\<close>

definition calculate_smart_delay :: "clock \<Rightarrow> nat \<Rightarrow> sender \<Rightarrow> (py_error + int) \<times> sender" where
  "calculate_smart_delay t r s =
     (let s1 = (if last_sent_date s < date t
                then s\<lparr>sent_today := 0, last_sent_date := date t\<rparr> else s)
      in if daily_limit s1 \<le> sent_today s1
         then (Inr (py_int (seconds_until_next_day t)), s1)
         else (let remaining_emails = daily_limit s1 - sent_today s1;
                   remaining_seconds = seconds_until_end_of_day t
               in if 0 < remaining_emails
                  then (let optimal_delay = remaining_seconds / of_int remaining_emails;
                            min_delay = max 30 (optimal_delay * (3 / 4));
                            max_delay = min 300 (optimal_delay * (5 / 4))
                        in if max_delay \<le> min_delay
                           then (randint 30 120 r, s1)
                           else (randint (py_int min_delay) (py_int max_delay) r, s1))
                  else (Inr 60, s1)))"

text \<open>\<open>send_email\<close> of the 24x7 sender: no wait for business hours, and the delay
  after a send is the calculated one.\<close>

definition send_email_24x7 ::
  "config \<Rightarrow> send_env \<Rightarrow> row \<Rightarrow> string \<Rightarrow> sender \<Rightarrow> bool \<times> sender \<times> event list" where
  "send_email_24x7 cfg env contact template s =
     (if daily_limit s \<le> sent_today s then (False, s, [])
      else (let s1 = (if last_sent_date s < today env
                      then s\<lparr>sent_today := 0, last_sent_date := today env\<rparr> else s)
            in case connect_smtp_24x7 (connects env) s1 of
                 (connection_ok, s2, ev1) \<Rightarrow>
                   if \<not> connection_ok then (False, s2, ev1)
                   else (case personalize_email cfg template contact of
                           Inl err \<Rightarrow> (False, s2, ev1)
                         | Inr (subject, personalized_content) \<Rightarrow>
                             if \<not> attach_ok env then (False, s2, ev1)
                             else if \<not> sendmail_ok env
                             then (False, s2, ev1 @ [Sendmail (row_email contact) False])
                             else (let s3 = s2\<lparr>sent_today := sent_today s2 + 1\<rparr>;
                                       ev2 = ev1 @ [Sendmail (row_email contact) True]
                                   in if \<not> log_ok env then (False, s3, ev2)
                                      else (let s4 = s3\<lparr>sent_emails_log :=
                                                   log_sent_email (timestamp env) contact subject
                                                     (sent_emails_log s3)\<rparr>
                                            in case calculate_smart_delay (now env) (rand env) s4 of
                                                 (Inl err, s5) \<Rightarrow> (False, s5, ev2)
                                               | (Inr delay, s5) \<Rightarrow> (True, s5, ev2 @ [Sleep delay]))))))"

text \<open>
  The loop of \<open>run_continuous\<close> of the 24x7 sender, one element of the environment for
  each iteration. At the daily limit the loop sleeps until the next day and starts over;
  otherwise it sends to the first unsent contact and sleeps five minutes after a
  failure. \<open>None\<close>: the loop is still running when the answers have run out.
\<close>

fun run_continuous ::
  "config \<Rightarrow> row list \<Rightarrow> string \<Rightarrow> send_env list \<Rightarrow> sender \<Rightarrow> event list
     \<Rightarrow> (sender \<times> event list) option" where
  "run_continuous cfg contacts_df template [] s ev =
     (if get_unsent_contacts (sent_emails_log s) contacts_df = [] then Some (s, ev) else None)"
| "run_continuous cfg contacts_df template (env # envs) s ev =
     (let unsent_contacts = get_unsent_contacts (sent_emails_log s) contacts_df
      in if unsent_contacts = [] then Some (s, ev)
         else if daily_limit s \<le> sent_today s
         then run_continuous cfg contacts_df template envs s
                (ev @ [Sleep (py_int (seconds_until_next_day (now env)))])
         else (case send_email_24x7 cfg env (hd unsent_contacts) template s of
                 (success, s1, ev1) \<Rightarrow>
                   run_continuous cfg contacts_df template envs s1
                     (ev @ ev1 @ (if success then [] else [Sleep 300]))))"

section \<open>Example inputs\<close>

definition example_config :: config where
  "example_config =
     \<lparr>cfg_email = ''me@mail.io'', cfg_candidate_name = Some ''Ann'',
      cfg_phone_number = Some ''555'', cfg_min_delay = Some 30, cfg_max_delay = Some 120\<rparr>"

definition example_contacts :: "row list" where
  "example_contacts =
     [\<lparr>row_email = ''a@acme.com'', row_company = Some ''Acme'', row_hr_name = Some ''Al''\<rparr>,
      \<lparr>row_email = ''b@bolt.com'', row_company = Some ''Bolt'', row_hr_name = None\<rparr>,
      \<lparr>row_email = ''c@core.com'', row_company = None, row_hr_name = None\<rparr>]"

text \<open>An environment in which everything succeeds at once, at nine o'clock of day \<open>d\<close>.\<close>

definition example_env :: "int \<Rightarrow> send_env" where
  "example_env d =
     \<lparr>today = d, business = [True], noops = [True], connects = [Established],
      attach_ok = True, sendmail_ok = True, log_ok = True, timestamp = ''T'', rand = 0,
      now = \<lparr>date = d, micros = 32400000000\<rparr>\<rparr>"

text \<open>A sender that has sent \<open>k\<close> emails of its limit \<open>l\<close> on day \<open>d\<close>.\<close>

definition example_sender :: "int \<Rightarrow> int \<Rightarrow> int \<Rightarrow> sender" where
  "example_sender k l d =
     \<lparr>sent_today = k, daily_limit = l, last_sent_date = d, smtp_server = False,
      connection_attempts = 0, sent_emails_log = NoFile\<rparr>"

section \<open>Predicates of the delay\<close>



section \<open>Idempotence of the deduplication pass\<close>


lemma dedup_loop_fst: "fst (dedup_loop seen u d cs) = u @ kept seen cs"
  by (induction cs arbitrary: seen u d) (simp_all add: Let_def)

lemma kept_fresh: "c \<in> set (kept seen cs) \<Longrightarrow> lower (email c) \<notin> seen"
  by (induction cs arbitrary: seen) (auto split: if_splits)

lemma kept_distinct: "distinct (map (\<lambda>c. lower (email c)) (kept seen cs))"
  by (induction cs arbitrary: seen) (auto dest: kept_fresh)

lemma dedup_loop_distinct:
  "distinct (map (\<lambda>c. lower (email c)) cs) \<Longrightarrow> \<forall>c \<in> set cs. lower (email c) \<notin> seen
     \<Longrightarrow> dedup_loop seen u d cs = (u @ cs, d)"
proof (induction cs arbitrary: seen u d)
  case Nil
  then show ?case by simp
next
  case (Cons a cs)
  have fresh: "lower (email a) \<notin> seen"
    using Cons.prems(2) by simp
  have rest: "\<forall>c \<in> set cs. lower (email c) \<notin> insert (lower (email a)) seen"
    using Cons.prems by (fastforce simp: image_iff)
  have "dedup_loop (insert (lower (email a)) seen) (u @ [a]) d cs = ((u @ [a]) @ cs, d)"
    using Cons.prems(1) rest by (intro Cons.IH) simp_all
  then show ?case
    using fresh by (simp add: Let_def)
qed

text \<open>
  C7. Applying the deduplication pass to its own output returns that output unchanged and
  collects no duplicate: the second application keeps every record and reports zero.
\<close>

theorem dedup_pass_idempotent:
  "dedup_pass (fst (dedup_pass contacts)) = (fst (dedup_pass contacts), [])"
proof -
  have eq: "fst (dedup_loop {} [] [] contacts) = kept {} contacts"
    by (simp add: dedup_loop_fst)
  have "dedup_loop {} [] [] (kept {} contacts) = ([] @ kept {} contacts, [])"
    by (rule dedup_loop_distinct) (simp_all add: kept_distinct)
  then show ?thesis
    unfolding dedup_pass_def eq by simp
qed

section \<open>What the email pattern matches\<close>

lemma tld_try_bound: "tld_try t n = Some r \<Longrightarrow> r \<le> n"
  by (induction n) (auto split: if_splits)

lemma domain_try_shape:
  "domain_try d k = Some n \<Longrightarrow>
     \<exists>j r. j < k \<and> nth_opt d (Suc j) = Some CHR ''.''
       \<and> tld_try (drop (Suc (Suc j)) d) (length (takeWhile tld_char (drop (Suc (Suc j)) d))) = Some r
       \<and> n = Suc (Suc j) + r"
proof (induction k)
  case 0
  then show ?case by simp
next
  case (Suc k)
  show ?case
  proof (cases "nth_opt d (Suc k) = Some CHR ''.''
      \<and> tld_try (drop (Suc (Suc k)) d) (length (takeWhile tld_char (drop (Suc (Suc k)) d))) \<noteq> None")
    case True
    then show ?thesis using Suc.prems by auto
  next
    case False
    then have "domain_try d k = Some n"
      using Suc.prems by (auto split: if_splits option.splits)
    then show ?thesis using Suc.IH less_SucI by blast
  qed
qed

lemma local_try_shape:
  "local_try s m = Some n \<Longrightarrow>
     \<exists>j r. j < m \<and> nth_opt s (Suc j) = Some CHR ''@''
       \<and> domain_try (drop (Suc (Suc j)) s) (length (takeWhile domain_char (drop (Suc (Suc j)) s))) = Some r
       \<and> n = Suc (Suc j) + r"
proof (induction m)
  case 0
  then show ?case by simp
next
  case (Suc m)
  show ?case
  proof (cases "nth_opt s (Suc m) = Some CHR ''@''
      \<and> domain_try (drop (Suc (Suc m)) s) (length (takeWhile domain_char (drop (Suc (Suc m)) s))) \<noteq> None")
    case True
    then show ?thesis using Suc.prems by auto
  next
    case False
    then have "local_try s m = Some n"
      using Suc.prems by (auto split: if_splits option.splits)
    then show ?thesis using Suc.IH less_SucI by blast
  qed
qed

lemma take_in_run: "n \<le> length (takeWhile P xs) \<Longrightarrow> c \<in> set (take n xs) \<Longrightarrow> P c"
proof -
  assume n: "n \<le> length (takeWhile P xs)" and c: "c \<in> set (take n xs)"
  have "take n xs = take n (takeWhile P xs)"
    using n by (induction xs arbitrary: n) (auto simp: take_Cons split: nat.splits if_splits)
  then have "c \<in> set (takeWhile P xs)"
    using c by (metis in_set_takeD)
  then show "P c" by (rule set_takeWhileD[THEN conjunct2])
qed

lemma take_split_at:
  "nth_opt s (Suc j) = Some x \<Longrightarrow> take (Suc (Suc j) + r) s = take (Suc j) s @ x # take r (drop (Suc (Suc j)) s)"
proof -
  assume "nth_opt s (Suc j) = Some x"
  then have lt: "Suc j < length s" and x: "s ! Suc j = x"
    by (auto simp: nth_opt_def split: if_splits)
  have "take (Suc (Suc j) + r) s = take (Suc (Suc j)) s @ take r (drop (Suc (Suc j)) s)"
    by (rule take_add)
  also have "take (Suc (Suc j)) s = take (Suc j) s @ [x]"
    using lt x by (simp add: take_Suc_conv_app_nth)
  finally show ?thesis by simp
qed

lemma not_at: "\<not> local_char CHR ''@''" "\<not> domain_char CHR ''@''" "\<not> tld_char CHR ''@''"
  by (simp_all add: local_char_def domain_char_def tld_char_def ascii_alpha_def ascii_upper_def
      ascii_lower_def ascii_digit_def in_range_def code_point_def)

lemma domain_match_chars:
  assumes "domain_try d (length (takeWhile domain_char d)) = Some n"
  shows "CHR ''@'' \<notin> set (take n d) \<and> CHR ''.'' \<in> set (take n d)"
proof -
  from domain_try_shape[OF assms] obtain j r where
    j: "j < length (takeWhile domain_char d)" and
    dot: "nth_opt d (Suc j) = Some CHR ''.''" and
    tld: "tld_try (drop (Suc (Suc j)) d) (length (takeWhile tld_char (drop (Suc (Suc j)) d))) = Some r" and
    n: "n = Suc (Suc j) + r"
    by blast
  have split: "take n d = take (Suc j) d @ CHR ''.'' # take r (drop (Suc (Suc j)) d)"
    unfolding n by (rule take_split_at[OF dot])
  have a: "CHR ''@'' \<notin> set (take (Suc j) d)"
    using take_in_run[of "Suc j" domain_char d "CHR ''@''"] j not_at by auto
  have "r \<le> length (takeWhile tld_char (drop (Suc (Suc j)) d))"
    using tld by (rule tld_try_bound)
  then have b: "CHR ''@'' \<notin> set (take r (drop (Suc (Suc j)) d))"
    using take_in_run[of r tld_char "drop (Suc (Suc j)) d" "CHR ''@''"] not_at by auto
  show ?thesis using a b by (simp add: split)
qed

lemma local_match_shape:
  assumes "local_try s (length (takeWhile local_char s)) = Some n"
  shows "email_shape (take n s)"
proof -
  from local_try_shape[OF assms] obtain j r where
    j: "j < length (takeWhile local_char s)" and
    at: "nth_opt s (Suc j) = Some CHR ''@''" and
    dom: "domain_try (drop (Suc (Suc j)) s) (length (takeWhile domain_char (drop (Suc (Suc j)) s))) = Some r" and
    n: "n = Suc (Suc j) + r"
    by blast
  have split: "take n s = take (Suc j) s @ CHR ''@'' # take r (drop (Suc (Suc j)) s)"
    unfolding n by (rule take_split_at[OF at])
  have a: "CHR ''@'' \<notin> set (take (Suc j) s)"
    using take_in_run[of "Suc j" local_char s "CHR ''@''"] j not_at by auto
  show ?thesis
    unfolding email_shape_def using split a domain_match_chars[OF dom] by blast
qed

lemma search_from_shape: "search_from prev s = Some e \<Longrightarrow> email_shape e"
proof (induction s arbitrary: prev)
  case Nil
  then show ?case by simp
next
  case (Cons c cs)
  show ?case
  proof (cases "match_here prev (c # cs)")
    case None
    then show ?thesis using Cons by simp
  next
    case (Some n)
    then have "local_try (c # cs) (length (takeWhile local_char (c # cs))) = Some n"
      by (simp add: match_here_def split: if_splits)
    then have "email_shape (take n (c # cs))" by (rule local_match_shape)
    then show ?thesis using Cons.prems Some by simp
  qed
qed

lemma first_email_shape: "first_email line = Some e \<Longrightarrow> email_shape e"
  unfolding first_email_def by (rule search_from_shape)

lemma split_on_absent: "sep \<notin> set r \<Longrightarrow> split_on sep r = [r]"
  by (induction r) auto

lemma split_on_first: "sep \<notin> set l \<Longrightarrow> split_on sep (l @ sep # r) = l # split_on sep r"
  by (induction l) auto

lemma email_shape_valid: "email_shape e \<Longrightarrow> \<not> email_invalid e"
  by (auto simp: email_shape_def email_invalid_def split_on_first split_on_absent)

lemma email_shape_count: "email_shape e \<Longrightarrow> count_list e CHR ''@'' = 1"
  by (auto simp: email_shape_def)


lemma strip_not_blank: "strip s \<noteq> [] \<Longrightarrow> \<not> is_blank (strip s)"
proof -
  assume ne: "strip s \<noteq> []"
  define u where "u = dropWhile isspace (rev (lstrip s))"
  have s: "strip s = rev u"
    by (simp add: strip_def rstrip_def u_def)
  then have "u \<noteq> []" using ne by simp
  then have "\<not> isspace (hd u)" and "hd u \<in> set u"
    unfolding u_def by (simp_all add: hd_dropWhile)
  then show ?thesis
    by (auto simp: s is_blank_def list_all_iff)
qed

lemma clean_not_blank: "clean s \<noteq> [] \<Longrightarrow> \<not> is_blank (clean s)"
  unfolding clean_def by (rule strip_not_blank)

lemma at_not_space: "\<not> isspace CHR ''@''"
  by (simp add: isspace_def in_range_def code_point_def)

lemma email_shape_not_blank: "email_shape e \<Longrightarrow> \<not> is_blank e"
  using at_not_space by (auto simp: email_shape_def is_blank_def)

lemma default_not_blank:
  "\<not> is_blank ''HR Manager''" "\<not> is_blank ''HR Representative''" "\<not> is_blank (''Company_'' @ x)"
  by (simp_all add: is_blank_def isspace_def in_range_def code_point_def)

lemma parse_line_unfold:
  assumes "first_email line = Some e"
    and "extract_fields (split_parts (strip (replace e email_marker line))) = (sno, name0, title0, company0)"
  shows "parse_line n line =
     (if email_invalid e
      then Inl \<lparr>line_num = n, content = line, reason = ''Invalid email: '' @ e\<rparr>
      else Inr \<lparr>company = (if clean company0 \<noteq> [] \<and> clean company0 \<noteq> ''Unknown Company'' then clean company0
                            else ''Company_'' @ (if sno \<noteq> [] then sno else str_nat n)),
                hr_name = (if clean name0 \<noteq> [] then clean name0 else ''HR Manager''),
                email = e,
                position = (if clean title0 \<noteq> [] then clean title0 else ''HR Representative'')\<rparr>)"
  by (simp only: parse_line_def assms option.case Let_def prod.case)

lemma parse_line_not_blank:
  assumes "parse_line n line = Inr c"
  shows "\<not> is_blank (hr_name c) \<and> \<not> is_blank (position c) \<and> \<not> is_blank (company c) \<and> \<not> is_blank (email c)"
proof -
  obtain e where e: "first_email line = Some e"
    using assms by (cases "first_email line") (simp_all only: parse_line_def option.case sum.distinct)
  obtain sno name0 title0 company0 where
    f: "extract_fields (split_parts (strip (replace e email_marker line))) = (sno, name0, title0, company0)"
    by (metis prod_cases4)
  have valid: "\<not> email_invalid e"
    using first_email_shape[OF e] by (rule email_shape_valid)
  have "parse_line n line = Inr \<lparr>company = (if clean company0 \<noteq> [] \<and> clean company0 \<noteq> ''Unknown Company'' then clean company0
                            else ''Company_'' @ (if sno \<noteq> [] then sno else str_nat n)),
                hr_name = (if clean name0 \<noteq> [] then clean name0 else ''HR Manager''),
                email = e,
                position = (if clean title0 \<noteq> [] then clean title0 else ''HR Representative'')\<rparr>"
    by (simp only: parse_line_unfold[OF e f] valid if_False)
  then have c: "c = \<lparr>company = (if clean company0 \<noteq> [] \<and> clean company0 \<noteq> ''Unknown Company'' then clean company0
                            else ''Company_'' @ (if sno \<noteq> [] then sno else str_nat n)),
                hr_name = (if clean name0 \<noteq> [] then clean name0 else ''HR Manager''),
                email = e,
                position = (if clean title0 \<noteq> [] then clean title0 else ''HR Representative'')\<rparr>"
    using assms by (simp only: sum.inject)
  have "\<not> is_blank (hr_name c)"
    by (simp add: c clean_not_blank default_not_blank)
  moreover have "\<not> is_blank (position c)"
    by (simp add: c clean_not_blank default_not_blank)
  moreover have "\<not> is_blank (company c)"
  proof (cases "clean company0 \<noteq> [] \<and> clean company0 \<noteq> ''Unknown Company''")
    case True
    then have "company c = clean company0" by (simp add: c)
    then show ?thesis using True clean_not_blank by simp
  next
    case False
    then have "company c = ''Company_'' @ (if sno \<noteq> [] then sno else str_nat n)"
      unfolding c by auto
    then show ?thesis by (simp only: default_not_blank(3) not_False_eq_True)
  qed
  moreover have "\<not> is_blank (email c)"
    using first_email_shape[OF e] by (simp add: c email_shape_not_blank)
  ultimately show ?thesis by simp
qed

lemma parse_line_skipped:
  assumes "parse_line n line = Inl sk"
  shows "reason sk = ''No email found''"
proof (cases "first_email line")
  case None
  then have "parse_line n line = Inl \<lparr>line_num = n, content = line, reason = ''No email found''\<rparr>"
    by (simp only: parse_line_def option.case)
  then show ?thesis using assms by simp
next
  case (Some e)
  then have "\<not> email_invalid e"
    by (intro email_shape_valid first_email_shape)
  moreover obtain sno name0 title0 company0 where
    "extract_fields (split_parts (strip (replace e email_marker line))) = (sno, name0, title0, company0)"
    by (metis prod_cases4)
  ultimately have "\<exists>c. parse_line n line = Inr c"
    using parse_line_unfold[OF Some] by simp
  then show ?thesis
    using assms by simp
qed

lemma parse_loop_contacts:
  "c \<in> set (fst (parse_loop cs sk n ls)) \<Longrightarrow> c \<in> set cs \<or> (\<exists>m l. parse_line m l = Inr c)"
proof (induction ls arbitrary: cs sk n)
  case Nil
  then show ?case by simp
next
  case (Cons line ls)
  show ?case
  proof (cases "parse_line n line")
    case (Inl s)
    then have "c \<in> set (fst (parse_loop cs (sk @ [s]) (Suc n) ls))"
      using Cons.prems by simp
    then show ?thesis by (rule Cons.IH)
  next
    case (Inr c')
    then have "c \<in> set (fst (parse_loop (cs @ [c']) sk (Suc n) ls))"
      using Cons.prems by simp
    then have "c \<in> set (cs @ [c']) \<or> (\<exists>m l. parse_line m l = Inr c)" by (rule Cons.IH)
    then show ?thesis using Inr by auto
  qed
qed

lemma parse_loop_skipped:
  "s \<in> set (snd (parse_loop cs sk n ls)) \<Longrightarrow> s \<in> set sk \<or> (\<exists>m l. parse_line m l = Inl s)"
proof (induction ls arbitrary: cs sk n)
  case Nil
  then show ?case by simp
next
  case (Cons line ls)
  show ?case
  proof (cases "parse_line n line")
    case (Inl s')
    then have "s \<in> set (snd (parse_loop cs (sk @ [s']) (Suc n) ls))"
      using Cons.prems by simp
    then have "s \<in> set (sk @ [s']) \<or> (\<exists>m l. parse_line m l = Inl s)" by (rule Cons.IH)
    then show ?thesis using Inl by auto
  next
    case (Inr c')
    then have "s \<in> set (snd (parse_loop (cs @ [c']) sk (Suc n) ls))"
      using Cons.prems by simp
    then show ?thesis by (rule Cons.IH)
  qed
qed

section \<open>The extractor on the example line\<close>

lemma example_line_value:
  "parse_hr_data_improved ''1 John Smith Senior Recruiter john.smith@acme.com Acme Corp'' =
     ([\<lparr>company = ''Acme Corp'', hr_name = ''HR Manager'', email = ''john.smith@acme.com'',
        position = ''John Smith Senior Recruiter''\<rparr>], [])"
  by code_simp

text \<open>
  C2, as stated, fails: on the line \<open>1 John Smith Senior Recruiter john.smith@acme.com
  Acme Corp\<close>, with single spaces, the extractor does not produce the record with name
  \<open>John Smith\<close> and title \<open>Senior Recruiter\<close>.
\<close>

theorem example_line_counterexample:
  "fst (parse_hr_data_improved ''1 John Smith Senior Recruiter john.smith@acme.com Acme Corp'') \<noteq>
     [\<lparr>company = ''Acme Corp'', hr_name = ''John Smith'', email = ''john.smith@acme.com'',
       position = ''Senior Recruiter''\<rparr>]"
  by (simp add: example_line_value)

text \<open>
  C2, amended. On that line the fallback tokenizer groups all four words before the email
  into one part; the part holds the role keyword \<open>recruiter\<close>, so it becomes the title
  and the name is the default. The extractor produces exactly one record, with name
  \<open>HR Manager\<close>, title \<open>John Smith Senior Recruiter\<close>, the email and the company
  \<open>Acme Corp\<close>, and no skipped line; the serial \<open>1\<close> is recognised and taken off, and
  the record has no field for it.
\<close>

theorem example_line_amended:
  "parse_hr_data_improved ''1 John Smith Senior Recruiter john.smith@acme.com Acme Corp'' =
     ([\<lparr>company = ''Acme Corp'', hr_name = ''HR Manager'', email = ''john.smith@acme.com'',
        position = ''John Smith Senior Recruiter''\<rparr>], [])
   \<and> split_parts ''1 John Smith Senior Recruiter |||EMAIL||| Acme Corp'' =
       [''1'', ''John Smith Senior Recruiter'', ''|||EMAIL|||'', ''Acme Corp'']
   \<and> extract_fields [''1'', ''John Smith Senior Recruiter'', ''|||EMAIL|||'', ''Acme Corp''] =
       (''1'', ''HR Manager'', ''John Smith Senior Recruiter'', ''Acme Corp'')"
proof (intro conjI)
  show "parse_hr_data_improved ''1 John Smith Senior Recruiter john.smith@acme.com Acme Corp'' =
     ([\<lparr>company = ''Acme Corp'', hr_name = ''HR Manager'', email = ''john.smith@acme.com'',
        position = ''John Smith Senior Recruiter''\<rparr>], [])"
    by (rule example_line_value)
  show "split_parts ''1 John Smith Senior Recruiter |||EMAIL||| Acme Corp'' =
       [''1'', ''John Smith Senior Recruiter'', ''|||EMAIL|||'', ''Acme Corp'']"
    by code_simp
  show "extract_fields [''1'', ''John Smith Senior Recruiter'', ''|||EMAIL|||'', ''Acme Corp''] =
       (''1'', ''HR Manager'', ''John Smith Senior Recruiter'', ''Acme Corp'')"
    by code_simp
qed

section \<open>No blank field, no invalid email\<close>

text \<open>
  C8. Every record the extractor emits has a name, a title, a company and an email that
  are not blank (so not empty either): the defaults fill what tokenizing or the
  leading-digits trim left empty.
\<close>

theorem emitted_fields_not_blank:
  assumes "c \<in> set (fst (parse_hr_data_improved text))"
  shows "\<not> is_blank (hr_name c) \<and> \<not> is_blank (position c) \<and> \<not> is_blank (company c) \<and> \<not> is_blank (email c)"
proof -
  have "c \<in> set [] \<or> (\<exists>m l. parse_line m l = Inr c)"
    using assms unfolding parse_hr_data_improved_def by (rule parse_loop_contacts)
  then obtain m l where "parse_line m l = Inr c" by auto
  then show ?thesis by (rule parse_line_not_blank)
qed

theorem emitted_fields_not_blank_witness:
  "\<lparr>company = ''Company_7'', hr_name = ''HR Manager'', email = ''careers@foo.io'',
     position = ''HR Representative''\<rparr> \<in> set (fst (parse_hr_data_improved ''7 careers@foo.io''))
   \<and> \<not> is_blank ''HR Manager'' \<and> \<not> is_blank ''HR Representative''
   \<and> \<not> is_blank ''Company_7'' \<and> \<not> is_blank ''careers@foo.io''"
proof -
  have h: "\<lparr>company = ''Company_7'', hr_name = ''HR Manager'', email = ''careers@foo.io'',
     position = ''HR Representative''\<rparr> \<in> set (fst (parse_hr_data_improved ''7 careers@foo.io''))"
    by code_simp
  show ?thesis
    using h emitted_fields_not_blank [OF h] by simp
qed

text \<open>
  C10. An email matched by the pattern holds exactly one \<open>@\<close> and passes the final
  check, so the re-validation branch is never taken: every entry of the skipped lines
  has the reason \<open>No email found\<close>.
\<close>

theorem revalidation_unreachable:
  "(first_email line = Some e \<longrightarrow> count_list e CHR ''@'' = 1 \<and> \<not> email_invalid e)
   \<and> (sk \<in> set (snd (parse_hr_data_improved text)) \<longrightarrow> reason sk = ''No email found'')"
proof (intro conjI impI)
  assume "first_email line = Some e"
  then have "email_shape e" by (rule first_email_shape)
  then show "count_list e CHR ''@'' = 1" and "\<not> email_invalid e"
    by (rule email_shape_count, rule email_shape_valid)
next
  assume "sk \<in> set (snd (parse_hr_data_improved text))"
  then have "sk \<in> set [] \<or> (\<exists>m l. parse_line m l = Inl sk)"
    unfolding parse_hr_data_improved_def by (rule parse_loop_skipped)
  then obtain m l where "parse_line m l = Inl sk" by auto
  then show "reason sk = ''No email found''" by (rule parse_line_skipped)
qed

theorem revalidation_unreachable_witness:
  "first_email ''to a@b.cd'' = Some ''a@b.cd''
   \<and> count_list ''a@b.cd'' CHR ''@'' = 1 \<and> \<not> email_invalid ''a@b.cd''
   \<and> \<lparr>line_num = 1, content = ''n/a'', reason = ''No email found''\<rparr>
        \<in> set (snd (parse_hr_data_improved ''n/a''))
   \<and> reason \<lparr>line_num = 1, content = ''n/a'', reason = ''No email found''\<rparr> = ''No email found''"
proof -
  have h1: "first_email ''to a@b.cd'' = Some ''a@b.cd''"
    by code_simp
  have h2: "\<lparr>line_num = 1, content = ''n/a'', reason = ''No email found''\<rparr>
        \<in> set (snd (parse_hr_data_improved ''n/a''))"
    by code_simp
  show ?thesis
    using h1 h2
      revalidation_unreachable [of "''to a@b.cd''" "''a@b.cd''"
        "\<lparr>line_num = 1, content = ''n/a'', reason = ''No email found''\<rparr>" "''n/a''"]
    by simp
qed

section \<open>The sent-log exclusion\<close>

lemma sent_emails_of_Some:
  "sent_emails_of sent_log = Some S \<Longrightarrow>
     S = {e. \<exists>entry \<in> set sent_log. map_of entry ''email'' = Some e}"
proof (induction sent_log arbitrary: S)
  case Nil
  then show ?case by simp
next
  case (Cons entry sent_log)
  then obtain e S' where e: "map_of entry ''email'' = Some e"
    and S': "sent_emails_of sent_log = Some S'" and S: "S = insert e S'"
    by (auto split: option.splits)
  have "S' = {e. \<exists>entry \<in> set sent_log. map_of entry ''email'' = Some e}"
    using S' by (rule Cons.IH)
  then show ?case using e S by auto
qed

text \<open>
  C1, as stated, fails: a contact whose email differs from a logged one only in letter
  case is returned again.
\<close>

theorem get_unsent_contacts_counterexample:
  "get_unsent_contacts (Log [[(''email'', ''hr@acme.com'')]])
     [\<lparr>row_email = ''HR@acme.com'', row_company = None, row_hr_name = None\<rparr>]
   \<noteq> filter_unsent_spec
     [\<lparr>row_email = ''HR@acme.com'', row_company = None, row_hr_name = None\<rparr>] [''hr@acme.com'']"
proof -
  have code: "get_unsent_contacts (Log [[(''email'', ''hr@acme.com'')]])
     [\<lparr>row_email = ''HR@acme.com'', row_company = None, row_hr_name = None\<rparr>]
   = [\<lparr>row_email = ''HR@acme.com'', row_company = None, row_hr_name = None\<rparr>]"
    by (simp add: get_unsent_contacts_def)
  have spec: "filter_unsent_spec
     [\<lparr>row_email = ''HR@acme.com'', row_company = None, row_hr_name = None\<rparr>] [''hr@acme.com''] = []"
    by code_simp
  show ?thesis
    unfolding code spec by simp
qed

text \<open>
  C1, amended. When every entry of the sent log carries an email, \<open>get_unsent_contacts\<close>
  returns exactly the contacts whose email is not one of the logged emails, where
  membership is equality of the strings as they are (case matters), and the contacts
  returned keep their relative order.
\<close>

theorem get_unsent_contacts_exact:
  assumes "sent_emails_of sent_log = Some S"
  shows "get_unsent_contacts (Log sent_log) C = filter (\<lambda>c. row_email c \<notin> S) C
     \<and> S = {e. \<exists>entry \<in> set sent_log. map_of entry ''email'' = Some e}
     \<and> subseq (get_unsent_contacts (Log sent_log) C) C"
proof -
  have eq: "get_unsent_contacts (Log sent_log) C = filter (\<lambda>c. row_email c \<notin> S) C"
    by (simp add: get_unsent_contacts_def assms)
  moreover have "subseq (filter (\<lambda>c. row_email c \<notin> S) C) C"
    by simp
  ultimately show ?thesis
    using sent_emails_of_Some [OF assms] by simp
qed

theorem get_unsent_contacts_exact_witness:
  "sent_emails_of [[(''email'', ''hr@acme.com'')]] = Some {''hr@acme.com''}
   \<and> get_unsent_contacts (Log [[(''email'', ''hr@acme.com'')]])
       [\<lparr>row_email = ''hr@acme.com'', row_company = None, row_hr_name = None\<rparr>,
        \<lparr>row_email = ''HR@acme.com'', row_company = None, row_hr_name = None\<rparr>]
     = [\<lparr>row_email = ''HR@acme.com'', row_company = None, row_hr_name = None\<rparr>]"
proof -
  have h: "sent_emails_of [[(''email'', ''hr@acme.com'')]] = Some {''hr@acme.com''}"
    by simp
  have "get_unsent_contacts (Log [[(''email'', ''hr@acme.com'')]])
       [\<lparr>row_email = ''hr@acme.com'', row_company = None, row_hr_name = None\<rparr>,
        \<lparr>row_email = ''HR@acme.com'', row_company = None, row_hr_name = None\<rparr>]
     = filter (\<lambda>c. row_email c \<notin> {''hr@acme.com''})
       [\<lparr>row_email = ''hr@acme.com'', row_company = None, row_hr_name = None\<rparr>,
        \<lparr>row_email = ''HR@acme.com'', row_company = None, row_hr_name = None\<rparr>]"
    using get_unsent_contacts_exact [OF h] by (rule conjunct1)
  then show ?thesis
    using h by simp
qed

section \<open>The daily limit\<close>

lemma successful_sends_simps [simp]:
  "successful_sends [] = 0"
  "successful_sends (ev @ ev') = successful_sends ev + successful_sends ev'"
  "successful_sends (Sendmail r ok # ev) = (if ok then 1 else 0) + successful_sends ev"
  "successful_sends (Sleep d # ev) = successful_sends ev"
  "successful_sends (Connect a # ev) = successful_sends ev"
  "successful_sends (Noop b # ev) = successful_sends ev"
  "successful_sends (Quit # ev) = successful_sends ev"
  by (simp_all add: successful_sends_def)

lemma successful_sends_replicate [simp]: "successful_sends (replicate k (Sleep d)) = 0"
  by (induction k) simp_all






text \<open>
  C6. When the counter has reached the daily limit, \<open>send_email\<close> of either sender
  returns \<open>False\<close> at once: no connection is tested or opened and nothing is sent (no
  event), and the sender, with its counter and its sent log, is unchanged.
\<close>

theorem limit_reached_refused:
  assumes "daily_limit s \<le> sent_today s"
  shows "send_email cfg env contact template s = Some (False, s, [])
     \<and> send_email_24x7 cfg env contact template s = (False, s, [])"
  using assms by (simp add: send_email_def send_email_24x7_def)

theorem limit_reached_refused_witness:
  "daily_limit (example_sender 2 2 0) \<le> sent_today (example_sender 2 2 0)
   \<and> send_email example_config (example_env 0) (hd example_contacts) ''Dear {hr_name}'' (example_sender 2 2 0)
       = Some (False, example_sender 2 2 0, [])
   \<and> send_email_24x7 example_config (example_env 0) (hd example_contacts) ''Dear {hr_name}'' (example_sender 2 2 0)
       = (False, example_sender 2 2 0, [])"
proof -
  have h: "daily_limit (example_sender 2 2 0) \<le> sent_today (example_sender 2 2 0)"
    by (simp add: example_sender_def)
  show ?thesis
    using h limit_reached_refused [OF h] by simp
qed




section \<open>The new day\<close>

text \<open>Once the limit is reached, the loop of the 24x7 sender only sleeps, on whatever
  days its iterations run.\<close>

lemma run_continuous_at_limit:
  assumes "daily_limit s \<le> sent_today s"
    and "get_unsent_contacts (sent_emails_log s) contacts_df \<noteq> []"
  shows "run_continuous cfg contacts_df template envs s ev = None"
  using assms by (induction envs arbitrary: ev) (simp_all add: Let_def)

text \<open>
  C5 does not hold of the code. The limit was reached on day 0. A send attempted on day 1
  is refused because of the count of day 0, and the sender is unchanged: the counter is
  not reset, since the check of the limit comes before the check of the date. The loop
  of the 24x7 sender, run over days 1, 2 and 3, sleeps in every iteration and sends
  nothing.
\<close>

theorem new_day_still_refused:
  "send_email example_config (example_env 1) (hd example_contacts) ''Dear {hr_name}'' (example_sender 2 2 0)
     = Some (False, example_sender 2 2 0, [])
   \<and> send_email_24x7 example_config (example_env 1) (hd example_contacts) ''Dear {hr_name}'' (example_sender 2 2 0)
     = (False, example_sender 2 2 0, [])
   \<and> last_sent_date (example_sender 2 2 0) < today (example_env 1)
   \<and> run_continuous example_config example_contacts ''Dear {hr_name}''
        [example_env 1, example_env 2, example_env 3] (example_sender 2 2 0) [] = None"
proof -
  have "get_unsent_contacts (sent_emails_log (example_sender 2 2 0)) example_contacts \<noteq> []"
    by (simp add: example_sender_def example_contacts_def get_unsent_contacts_def)
  then have "run_continuous example_config example_contacts ''Dear {hr_name}''
        [example_env 1, example_env 2, example_env 3] (example_sender 2 2 0) [] = None"
    by (intro run_continuous_at_limit) (simp add: example_sender_def)
  then show ?thesis
    by (simp add: send_email_def send_email_24x7_def example_sender_def example_env_def)
qed

section \<open>Templates are not validated\<close>






text \<open>The default template that \<open>load_email_template\<close> writes is itself rejected by
  \<open>personalize_email\<close>: the braces of its style sheet open a replacement field.\<close>

lemma default_template_fails:
  "personalize_email example_config default_template (hd example_contacts) = Inl (KeyError '' font-family'')"
  by code_simp




section \<open>The adaptive delay\<close>













end
